theory Spec2Isabelle
  imports Main "HOL-Library.Word"
begin

unbundle bit_operations_syntax

section \<open>The Plan 9 control socket of package safesocket\<close>

text \<open>
  The backend in \<^verbatim>\<open>safesocket/safesocket_plan9.go\<close> posts one end of a pipe under a
  name in \<^verbatim>\<open>/srv\<close> and talks over the other end. Its functions are thin layers over
  \<^verbatim>\<open>os.File\<close> and the system calls of package \<^verbatim>\<open>plan9\<close>. The functions of the
  backend are embedded one by one from the source; the files and the kernel they run
  on are an explicit \<open>world\<close> that every function takes and returns. Calls to
  \<^verbatim>\<open>log.Printf\<close> have no effect on anything the backend returns and are left out.
\<close>

subsection \<open>Errors\<close>

text \<open>
  Go error values. \<open>EPLAN9\<close> is \<^verbatim>\<open>syscall.EPLAN9\<close>, the unsupported-operation error;
  \<open>EOF\<close> is \<^verbatim>\<open>io.EOF\<close>; \<open>ErrClosed\<close> and \<open>ErrInvalid\<close> are those of package
  \<^verbatim>\<open>os\<close>; \<open>ErrorString s\<close> is \<^verbatim>\<open>errors.New(s)\<close>; \<open>Errstr s\<close> is an error string
  reported by the kernel.
\<close>

datatype error = EPLAN9 | EOF | ErrClosed | ErrInvalid | ErrorString string | Errstr string

definition Eexist :: error where "Eexist = Errstr ''file already exists''"
definition Enonexist :: error where "Enonexist = Errstr ''file does not exist''"
definition Eperm :: error where "Eperm = Errstr ''permission denied''"
definition Ebadfd :: error where "Ebadfd = Errstr ''fd out of range or not open''"
definition Ebadusefd :: error where "Ebadusefd = Errstr ''inappropriate use of fd''"

subsection \<open>The world: kernel objects and Go file objects\<close>

type_synonym bytes = string
type_synonym fd = nat
type_synonym fileref = nat

text \<open>
  A descriptor refers to a channel: an end of a pipe (\<open>Pipe0 k\<close> is the end that
  \<^verbatim>\<open>pipe\<close> returns in \<^verbatim>\<open>pip[0]\<close> for the \<open>k\<close>-th pipe, \<open>Pipe1 k\<close> the one in
  \<^verbatim>\<open>pip[1]\<close>), or a name of \<^verbatim>\<open>/srv\<close> held by the descriptor that created it.
\<close>

datatype chan = Pipe0 nat | Pipe1 nat | SrvFile string

text \<open>
  What a read finds on a channel: a chunk of bytes (an empty chunk is end of file) or
  a failure of the transport.
\<close>

datatype rd_event = RData bytes | RFail error

text \<open>
  The state of a channel: the chunks waiting to be read from it, the results (count
  and error) the next writes on it will report, and the buffers written to it so far.
  When \<open>wresults\<close> is empty a write completes in full.
\<close>

record endpoint =
  incoming :: "rd_event list"
  wresults :: "(nat \<times> error option) list"
  wlog :: "bytes list"

text \<open>An entry of \<^verbatim>\<open>/srv\<close>: the channel posted under it, and whether it was created
  with the remove-on-close flag.\<close>

record srv_entry =
  posted :: "chan option"
  rclose :: bool

text \<open>
  Which close removes a name created with remove-on-close; see \<open>removes\<close> below. The
  world carries the rule, and no property below depends on which of the two it is.
\<close>

datatype rclose_rule = ByCreator | ByServerEnd

datatype syscall = SysPipe | SysCreate | SysPost | SysOpen

text \<open>A Go \<^verbatim>\<open>os.File\<close> object: its name, its descriptor, and whether Close was called.\<close>

record os_file =
  fname :: string
  sysfd :: fd
  closed :: bool

text \<open>
  \<open>refuse\<close> is the error, if any, with which the kernel turns down a system call for
  reasons outside the backend (permissions, resource limits). \<open>heap\<close> holds the
  \<^verbatim>\<open>os.File\<close> objects by reference, so that two values with the same \<^verbatim>\<open>*os.File\<close>
  share one object.
\<close>

record world =
  rule :: rclose_rule
  refuse :: "syscall \<Rightarrow> error option"
  fdtab :: "fd \<rightharpoonup> chan"
  nextfd :: fd
  npipes :: nat
  srvdir :: "string \<rightharpoonup> srv_entry"
  chio :: "chan \<Rightarrow> endpoint"
  heap :: "fileref \<rightharpoonup> os_file"
  nextref :: fileref

subsection \<open>System calls\<close>

text \<open>Open modes of Plan 9; \<open>O_RCLOSE\<close> is the constant declared in \<^verbatim>\<open>createSrv\<close>.\<close>

definition O_WRONLY :: "32 word" where "O_WRONLY = 1"
definition O_RDWR :: "32 word" where "O_RDWR = 2"
definition O_CLOEXEC :: "32 word" where "O_CLOEXEC = 32"
definition O_RCLOSE :: "32 word" where "O_RCLOSE = 64"

text \<open>\<^verbatim>\<open>plan9.Pipe\<close>: a new pipe and a descriptor for each end.\<close>

definition sys_pipe :: "world \<Rightarrow> (error + fd \<times> fd) \<times> world" where
  "sys_pipe w =
     (case refuse w SysPipe of
        Some e \<Rightarrow> (Inl e, w)
      | None \<Rightarrow>
          (Inr (nextfd w, Suc (nextfd w)),
           w\<lparr>fdtab := (fdtab w)(nextfd w \<mapsto> Pipe0 (npipes w),
                                 Suc (nextfd w) \<mapsto> Pipe1 (npipes w)),
             nextfd := nextfd w + 2,
             npipes := Suc (npipes w)\<rparr>))"

text \<open>
  Modelled from the spec: the kernel's handling of the remove-on-close flag, which is
  not part of the repository. Section 4.2 of the specification: the name is registered
  "with an OS remove on close flag so the name disappears automatically when the handle
  is closed". \<open>removes r c nm e\<close> says whether closing a descriptor of channel \<open>c\<close>
  removes the entry \<open>e\<close> named \<open>nm\<close>; only an entry created with the flag is ever
  removed. The two rules are the two readings of "the handle". \<open>ByCreator\<close>: the
  descriptor that \<^verbatim>\<open>create\<close> returned, as the manual page open(2) has it.
  \<open>ByServerEnd\<close>: the end of the pipe opposite to the posted one, as the comment
  above \<^verbatim>\<open>createSrv\<close> has it ("When the server end of the pipe is closed, /srv name
  associated with it will be removed").
\<close>

fun removes :: "rclose_rule \<Rightarrow> chan \<Rightarrow> string \<Rightarrow> srv_entry \<Rightarrow> bool" where
  "removes ByCreator (SrvFile n) nm e = (rclose e \<and> n = nm)"
| "removes ByCreator (Pipe0 k) nm e = False"
| "removes ByCreator (Pipe1 k) nm e = False"
| "removes ByServerEnd (Pipe0 k) nm e = (rclose e \<and> posted e = Some (Pipe1 k))"
| "removes ByServerEnd (Pipe1 k) nm e = (rclose e \<and> posted e = Some (Pipe0 k))"
| "removes ByServerEnd (SrvFile n) nm e = False"

definition after_close ::
  "rclose_rule \<Rightarrow> chan \<Rightarrow> (string \<rightharpoonup> srv_entry) \<Rightarrow> (string \<rightharpoonup> srv_entry)" where
  "after_close r c dir =
     (\<lambda>nm. case dir nm of
              None \<Rightarrow> None
            | Some e \<Rightarrow> if removes r c nm e then None else Some e)"

text \<open>\<^verbatim>\<open>plan9.Close\<close>: releases the descriptor and applies remove-on-close.\<close>

definition sys_close :: "fd \<Rightarrow> world \<Rightarrow> error option \<times> world" where
  "sys_close d w =
     (case fdtab w d of
        None \<Rightarrow> (Some Ebadfd, w)
      | Some c \<Rightarrow>
          (None, w\<lparr>fdtab := (fdtab w)(d := None),
                   srvdir := after_close (rule w) c (srvdir w)\<rparr>))"

text \<open>
  \<^verbatim>\<open>plan9.Create\<close> on a name of \<^verbatim>\<open>/srv\<close>: fails when the name exists, and unless the
  access mode is write-only; otherwise the name appears, with nothing posted yet.
\<close>

definition sys_create :: "string \<Rightarrow> 32 word \<Rightarrow> world \<Rightarrow> (error + fd) \<times> world" where
  "sys_create path mode w =
     (case refuse w SysCreate of
        Some e \<Rightarrow> (Inl e, w)
      | None \<Rightarrow>
          if srvdir w path \<noteq> None then (Inl Eexist, w)
          else if mode AND 3 \<noteq> O_WRONLY then (Inl Eperm, w)
          else
            (Inr (nextfd w),
             w\<lparr>fdtab := (fdtab w)(nextfd w \<mapsto> SrvFile path),
               nextfd := Suc (nextfd w),
               srvdir := (srvdir w)(path \<mapsto>
                 \<lparr>posted = None, rclose = (mode AND O_RCLOSE \<noteq> 0)\<rparr>)\<rparr>))"

text \<open>
  Writing the number of an open descriptor to a freshly created name posts that
  descriptor's channel under the name. (The source writes the number in decimal; the
  number is handed over as it is.)
\<close>

definition sys_post :: "fd \<Rightarrow> fd \<Rightarrow> world \<Rightarrow> error option \<times> world" where
  "sys_post srvfd d w =
     (case refuse w SysPost of
        Some e \<Rightarrow> (Some e, w)
      | None \<Rightarrow>
          (case fdtab w srvfd of
             Some (SrvFile nm) \<Rightarrow>
               (case (srvdir w nm, fdtab w d) of
                  (Some e, Some c) \<Rightarrow>
                    if posted e = None
                    then (None, w\<lparr>srvdir := (srvdir w)(nm \<mapsto> e\<lparr>posted := Some c\<rparr>)\<rparr>)
                    else (Some Ebadusefd, w)
                | _ \<Rightarrow> (Some Ebadfd, w))
           | _ \<Rightarrow> (Some Ebadusefd, w)))"

text \<open>Opening a name of \<^verbatim>\<open>/srv\<close> gives a new descriptor for the channel posted there.\<close>

definition sys_open :: "string \<Rightarrow> 32 word \<Rightarrow> world \<Rightarrow> (error + fd) \<times> world" where
  "sys_open path mode w =
     (case refuse w SysOpen of
        Some e \<Rightarrow> (Inl e, w)
      | None \<Rightarrow>
          (case srvdir w path of
             None \<Rightarrow> (Inl Enonexist, w)
           | Some e \<Rightarrow>
               (case posted e of
                  None \<Rightarrow> (Inl Ebadusefd, w)
                | Some c \<Rightarrow>
                    (Inr (nextfd w),
                     w\<lparr>fdtab := (fdtab w)(nextfd w \<mapsto> c), nextfd := Suc (nextfd w)\<rparr>))))"

subsection \<open>The file objects of package os\<close>

text \<open>\<^verbatim>\<open>os.NewFile\<close>: a new file object around a descriptor.\<close>

definition os_NewFile :: "fd \<Rightarrow> string \<Rightarrow> world \<Rightarrow> fileref \<times> world" where
  "os_NewFile d nm w =
     (nextref w,
      w\<lparr>heap := (heap w)(nextref w \<mapsto> \<lparr>fname = nm, sysfd = d, closed = False\<rparr>),
        nextref := Suc (nextref w)\<rparr>)"

text \<open>\<^verbatim>\<open>os.OpenFile\<close>: open, then wrap the descriptor.\<close>

definition os_OpenFile :: "string \<Rightarrow> 32 word \<Rightarrow> world \<Rightarrow> (error + fileref) \<times> world" where
  "os_OpenFile path mode w =
     (case sys_open path mode w of
        (Inl e, w1) \<Rightarrow> (Inl e, w1)
      | (Inr d, w1) \<Rightarrow> (case os_NewFile d path w1 of (f, w2) \<Rightarrow> (Inr f, w2)))"

text \<open>
  Modelled from the spec: what \<^verbatim>\<open>os.File\<close> does once it is closed. The type belongs
  to the Go standard library, not to the repository. Sections 3 and 7 of the
  specification give the rule: an operation after Close fails with the \<open>Closed\<close>
  error. Package os documents the same (Close makes the file unusable for I/O, and
  "Close will return an error if it has already been called"). The first Close
  releases the descriptor and marks the object closed.
\<close>

definition file_Close :: "fileref \<Rightarrow> world \<Rightarrow> error option \<times> world" where
  "file_Close r w =
     (case heap w r of
        None \<Rightarrow> (Some ErrInvalid, w)
      | Some f \<Rightarrow>
          if closed f then (Some ErrClosed, w)
          else (case sys_close (sysfd f) w of
                  (e, w1) \<Rightarrow> (e, w1\<lparr>heap := (heap w1)(r \<mapsto> f\<lparr>closed := True\<rparr>)\<rparr>)))"

text \<open>
  Modelled from the spec: the channel behind a file object that is open, or the error
  that every read and write on it reports: \<open>ErrClosed\<close> after Close, for the reason
  given at \<open>file_Close\<close>; \<open>ErrInvalid\<close> for a reference to no object.
\<close>

definition file_chan :: "fileref \<Rightarrow> world \<Rightarrow> error + chan" where
  "file_chan r w =
     (case heap w r of
        None \<Rightarrow> Inl ErrInvalid
      | Some f \<Rightarrow>
          if closed f then Inl ErrClosed
          else (case fdtab w (sysfd f) of None \<Rightarrow> Inl Ebadfd | Some c \<Rightarrow> Inr c))"

text \<open>
  \<open>file_Read r b w\<close> is \<^verbatim>\<open>n, err := f.Read(b)\<close>: the result holds the buffer after
  the call, \<open>n\<close> and \<open>err\<close>. What a read on an open file returns is not decided by
  the backend; it is a parameter, read off the channel's \<open>incoming\<close> in the world. A
  read takes at most one chunk and at most \<open>length b\<close> bytes of it, which it stores at
  the front of the buffer; what does not fit stays for the next read. An empty chunk
  is reported as \<open>EOF\<close>. \<open>None\<close> means that the call blocks and never returns:
  nothing is waiting on the channel and nothing will arrive.
\<close>

definition set_incoming :: "chan \<Rightarrow> rd_event list \<Rightarrow> world \<Rightarrow> world" where
  "set_incoming c evs w = w\<lparr>chio := (chio w)(c := (chio w c)\<lparr>incoming := evs\<rparr>)\<rparr>"

definition file_Read ::
  "fileref \<Rightarrow> bytes \<Rightarrow> world \<Rightarrow> ((bytes \<times> nat \<times> error option) \<times> world) option" where
  "file_Read r b w =
     (case file_chan r w of
        Inl e \<Rightarrow> Some ((b, 0, Some e), w)
      | Inr c \<Rightarrow>
          (case incoming (chio w c) of
             [] \<Rightarrow> None
           | RFail e # rest \<Rightarrow> Some ((b, 0, Some e), set_incoming c rest w)
           | RData d # rest \<Rightarrow>
               if d = [] then Some ((b, 0, Some EOF), set_incoming c rest w)
               else
                 (let n = min (length b) (length d) in
                  Some ((take n d @ drop n b, n, None),
                        set_incoming c
                          (if drop n d = [] then rest else RData (drop n d) # rest) w))))"

text \<open>The bytes a write hands to a pipe arrive at its other end.\<close>

fun peer :: "chan \<Rightarrow> chan option" where
  "peer (Pipe0 k) = Some (Pipe1 k)"
| "peer (Pipe1 k) = Some (Pipe0 k)"
| "peer (SrvFile n) = None"

definition deliver :: "chan \<Rightarrow> bytes \<Rightarrow> (chan \<Rightarrow> endpoint) \<Rightarrow> (chan \<Rightarrow> endpoint)" where
  "deliver c d io =
     (case peer c of
        None \<Rightarrow> io
      | Some q \<Rightarrow>
          if d = [] then io
          else io(q := (io q)\<lparr>incoming := incoming (io q) @ [RData d]\<rparr>))"

text \<open>
  \<open>file_Write r b w\<close> is \<^verbatim>\<open>n, err := f.Write(b)\<close>. The count and the error of a
  write on an open file are not decided by the backend either; they are a parameter,
  the next pair of the channel's \<open>wresults\<close>, and any pair of the type
  \<^verbatim>\<open>(int, error)\<close> may stand there. Every call is recorded in \<open>wlog\<close>.
\<close>

definition file_Write ::
  "fileref \<Rightarrow> bytes \<Rightarrow> world \<Rightarrow> (nat \<times> error option) \<times> world" where
  "file_Write r b w =
     (case file_chan r w of
        Inl e \<Rightarrow> ((0, Some e), w)
      | Inr c \<Rightarrow>
          (let ep = chio w c;
               res = (case wresults ep of [] \<Rightarrow> (length b, None) | x # xs \<Rightarrow> x);
               ep' = ep\<lparr>wresults := tl (wresults ep), wlog := wlog ep @ [b]\<rparr>
           in (res, w\<lparr>chio := deliver c (take (fst res) b) ((chio w)(c := ep'))\<rparr>)))"

subsection \<open>The backend\<close>

record ConnectionStrategy =
  path :: string

record plan9SrvListener =
  sl_name :: string
  sl_file :: fileref

record plan9FileConn =
  fc_name :: string
  fc_file :: fileref

type_synonym time = int

text \<open>The handshake token and the buffer \<^verbatim>\<open>make([]byte, len("Hello"))\<close>.\<close>

definition Hello :: bytes where
  "Hello = ''Hello''"

definition make_hello :: bytes where
  "make_hello = replicate (length Hello) (CHR 0x00)"

text \<open>The number of bytes and chunks still to be read from the channel of a file.\<close>

fun ev_size :: "rd_event \<Rightarrow> nat" where
  "ev_size (RData d) = Suc (length d)"
| "ev_size (RFail e) = 1"

definition pending :: "fileref \<Rightarrow> world \<Rightarrow> nat" where
  "pending r w =
     (case file_chan r w of
        Inl e \<Rightarrow> 0
      | Inr c \<Rightarrow> sum_list (map ev_size (incoming (chio w c))))"

text \<open>
  \<^verbatim>\<open>plan9SrvListener.Accept\<close>. The loop reads into a fresh buffer, returns the error
  of a failed read, leaves the loop when the buffer holds the token and reads again
  otherwise. \<open>None\<close>: Accept does not return.
\<close>

function Accept ::
  "plan9SrvListener \<Rightarrow> world \<Rightarrow> ((error + plan9FileConn) \<times> world) option" where
  "Accept sl w =
     (case file_Read (sl_file sl) make_hello w of
        None \<Rightarrow> None
      | Some ((hello, n, err), w1) \<Rightarrow>
          (case err of
             Some e \<Rightarrow> Some (Inl e, w1)
           | None \<Rightarrow>
               if hello = Hello
               then Some (Inr \<lparr>fc_name = sl_name sl, fc_file = sl_file sl\<rparr>, w1)
               else Accept sl w1))"
  by pat_completeness auto
termination
proof (relation "measure (\<lambda>(sl, w). pending (sl_file sl) w)")
  show "wf (measure (\<lambda>(sl, w). pending (sl_file sl) w))"
    by simp
next
  fix sl :: plan9SrvListener and w :: world and x2 x y hello y2 n err w1
  assume rd: "file_Read (sl_file sl) make_hello w = Some x2"
    and x2: "(x, y) = x2" and x: "(hello, y2) = x" and y2: "(n, err) = y2"
    and ok: "err = None" and "hello \<noteq> Hello"
  have "file_Read (sl_file sl) make_hello w = Some ((hello, n, None), y)"
    using rd x2 x y2 ok by simp
  then have "pending (sl_file sl) y < pending (sl_file sl) w"
    by (auto simp: file_Read_def set_incoming_def pending_def file_chan_def make_hello_def
        Hello_def Let_def split: sum.splits list.splits rd_event.splits if_splits option.splits)
  then show "((sl, y), (sl, w)) \<in> measure (\<lambda>(sl, w). pending (sl_file sl) w)"
    by simp
qed

text \<open>\<^verbatim>\<open>plan9SrvListener.Close\<close> and \<^verbatim>\<open>plan9SrvListener.Addr\<close>.\<close>

definition sl_Close :: "plan9SrvListener \<Rightarrow> world \<Rightarrow> error option \<times> world" where
  "sl_Close sl w = file_Close (sl_file sl) w"

definition sl_Addr :: "plan9SrvListener \<Rightarrow> string" where
  "sl_Addr sl = sl_name sl"

text \<open>The methods of \<^verbatim>\<open>plan9FileConn\<close>.\<close>

definition fc_Read ::
  "plan9FileConn \<Rightarrow> bytes \<Rightarrow> world \<Rightarrow> ((bytes \<times> nat \<times> error option) \<times> world) option" where
  "fc_Read fc b w = file_Read (fc_file fc) b w"

definition fc_Write :: "plan9FileConn \<Rightarrow> bytes \<Rightarrow> world \<Rightarrow> (nat \<times> error option) \<times> world" where
  "fc_Write fc b w = file_Write (fc_file fc) b w"

definition fc_Close :: "plan9FileConn \<Rightarrow> world \<Rightarrow> error option \<times> world" where
  "fc_Close fc w = file_Close (fc_file fc) w"

definition LocalAddr :: "plan9FileConn \<Rightarrow> string" where
  "LocalAddr fc = fc_name fc"

definition RemoteAddr :: "plan9FileConn \<Rightarrow> string" where
  "RemoteAddr fc = fc_name fc"

definition SetDeadline :: "plan9FileConn \<Rightarrow> time \<Rightarrow> world \<Rightarrow> error option \<times> world" where
  "SetDeadline fc t w = (Some EPLAN9, w)"

definition SetReadDeadline :: "plan9FileConn \<Rightarrow> time \<Rightarrow> world \<Rightarrow> error option \<times> world" where
  "SetReadDeadline fc t w = (Some EPLAN9, w)"

definition SetWriteDeadline :: "plan9FileConn \<Rightarrow> time \<Rightarrow> world \<Rightarrow> error option \<times> world" where
  "SetWriteDeadline fc t w = (Some EPLAN9, w)"

text \<open>\<^verbatim>\<open>connect\<close>: open the path read-write, write the token once, check the count.\<close>

definition connect ::
  "'a ConnectionStrategy_scheme \<Rightarrow> world \<Rightarrow> (error + plan9FileConn) \<times> world" where
  "connect s w =
     (case os_OpenFile (path s) O_RDWR w of
        (Inl err, w1) \<Rightarrow> (Inl err, w1)
      | (Inr f, w1) \<Rightarrow>
          (case file_Write f Hello w1 of
             ((n, err), w2) \<Rightarrow>
               (case err of
                  Some e \<Rightarrow> (Inl e, w2)
                | None \<Rightarrow>
                    if n \<noteq> length Hello then (Inl (ErrorString ''Bad handshake''), w2)
                    else (Inr \<lparr>fc_name = path s, fc_file = f\<rparr>, w2))))"

text \<open>
  \<^verbatim>\<open>createSrv\<close>. The two deferred calls run when the function returns, the later
  one first: \<^verbatim>\<open>srv.Close()\<close> (once \<open>srv\<close> exists), then \<^verbatim>\<open>plan9.Close(pip[1])\<close>.
\<close>

definition createSrv :: "string \<Rightarrow> world \<Rightarrow> (error + fileref) \<times> world" where
  "createSrv p w =
     (case sys_pipe w of
        (Inl err, w1) \<Rightarrow> (Inl err, w1)
      | (Inr (pip0, pip1), w1) \<Rightarrow>
          (case sys_create p (O_WRONLY OR O_CLOEXEC OR O_RCLOSE) w1 of
             (Inl err, w2) \<Rightarrow> (Inl err, snd (sys_close pip1 w2))
           | (Inr srvfd, w2) \<Rightarrow>
               (case os_NewFile srvfd p w2 of
                  (srv, w3) \<Rightarrow>
                    (case sys_post srvfd pip1 w3 of
                       (Some err, w4) \<Rightarrow>
                         (Inl err, snd (sys_close pip1 (snd (file_Close srv w4))))
                     | (None, w4) \<Rightarrow>
                         (case os_NewFile pip0 p w4 of
                            (file, w5) \<Rightarrow>
                              (Inr file, snd (sys_close pip1 (snd (file_Close srv w5)))))))))"

text \<open>\<^verbatim>\<open>listen\<close>.\<close>

definition listen :: "string \<Rightarrow> world \<Rightarrow> (error + plan9SrvListener) \<times> world" where
  "listen p w =
     (case createSrv p w of
        (Inl err, w1) \<Rightarrow> (Inl err, w1)
      | (Inr file, w1) \<Rightarrow> (Inr \<lparr>sl_name = p, sl_file = file\<rparr>, w1))"

subsection \<open>Notions used to state the properties\<close>

text \<open>
  \<open>discard_reads k sl w\<close> is the world after \<open>k\<close> reads in a row on the listener's
  file, each into a fresh token-sized buffer, each returning without error a buffer
  other than the token; \<open>None\<close> when the next \<open>k\<close> reads are not of that kind.
\<close>

fun discard_reads :: "nat \<Rightarrow> plan9SrvListener \<Rightarrow> world \<Rightarrow> world option" where
  "discard_reads 0 sl w = Some w"
| "discard_reads (Suc k) sl w =
     (case file_Read (sl_file sl) make_hello w of
        Some ((hello, n, None), w1) \<Rightarrow> if hello \<noteq> Hello then discard_reads k sl w1 else None
      | _ \<Rightarrow> None)"

text \<open>
  \<open>io_errors fc cs w\<close> makes the reads and writes \<open>cs\<close> on a Conn, one after the
  other, and returns the error of each; \<open>None\<close> when one of the reads blocks.
\<close>

datatype io_call = DoRead bytes | DoWrite bytes

fun io_errors ::
  "plan9FileConn \<Rightarrow> io_call list \<Rightarrow> world \<Rightarrow> (error option list \<times> world) option" where
  "io_errors fc [] w = Some ([], w)"
| "io_errors fc (DoRead b # cs) w =
     (case fc_Read fc b w of
        None \<Rightarrow> None
      | Some ((b', n, err), w1) \<Rightarrow>
          (case io_errors fc cs w1 of None \<Rightarrow> None | Some (es, w2) \<Rightarrow> Some (err # es, w2)))"
| "io_errors fc (DoWrite b # cs) w =
     (case fc_Write fc b w of
        ((n, err), w1) \<Rightarrow>
          (case io_errors fc cs w1 of None \<Rightarrow> None | Some (es, w2) \<Rightarrow> Some (err # es, w2)))"

text \<open>
  A concrete world: no descriptor beyond the standard three, nothing in \<^verbatim>\<open>/srv\<close>, no
  bytes in flight; and the world after \<^verbatim>\<open>listen\<close> on the usual socket name, which
  returns the listener \<open>sl0\<close>. \<open>fc0\<close> is the Conn that Accept on \<open>sl0\<close> returns, \<open>s0\<close>
  the strategy of a client, and \<open>write_reports r\<close> the listening world in which the
  client's first write will report \<open>r\<close>.
\<close>

definition world0 :: world where
  "world0 =
     \<lparr>rule = ByServerEnd, refuse = (\<lambda>_. None), fdtab = Map.empty, nextfd = 3, npipes = 0,
      srvdir = Map.empty, chio = (\<lambda>_. \<lparr>incoming = [], wresults = [], wlog = []\<rparr>),
      heap = Map.empty, nextref = 0\<rparr>"

definition sock :: string where
  "sock = ''/srv/tailscale.sock''"

definition listening :: world where
  "listening = snd (listen sock world0)"

definition sl0 :: plan9SrvListener where
  "sl0 = \<lparr>sl_name = sock, sl_file = 1\<rparr>"

definition fc0 :: plan9FileConn where
  "fc0 = \<lparr>fc_name = sock, fc_file = 1\<rparr>"

definition s0 :: ConnectionStrategy where
  "s0 = \<lparr>path = sock\<rparr>"

definition write_reports :: "nat \<times> error option \<Rightarrow> world" where
  "write_reports r =
     listening\<lparr>chio := (chio listening)
       (Pipe1 0 := \<lparr>incoming = [], wresults = [r], wlog = []\<rparr>)\<rparr>"

section \<open>Auxiliary facts\<close>

declare Accept.simps [simp del]

lemmas kernel_defs =
  listen_def createSrv_def sys_pipe_def sys_create_def os_NewFile_def sys_post_def
  sys_close_def file_Close_def O_WRONLY_def O_CLOEXEC_def O_RCLOSE_def O_RDWR_def
  after_close_def os_OpenFile_def sys_open_def

lemmas createSrv_defs =
  createSrv_def sys_pipe_def sys_create_def os_NewFile_def sys_post_def
  sys_close_def file_Close_def O_WRONLY_def O_CLOEXEC_def O_RCLOSE_def after_close_def

subsection \<open>One iteration of the loop of Accept\<close>

lemma Accept_error_step:
  "file_Read (sl_file sl) make_hello w = Some ((h, n, Some e), w1) \<Longrightarrow>
   Accept sl w = Some (Inl e, w1)"
  by (subst Accept.simps) simp

lemma Accept_retry_step:
  "file_Read (sl_file sl) make_hello w = Some ((h, n, None), w1) \<Longrightarrow> h \<noteq> Hello \<Longrightarrow>
   Accept sl w = Accept sl w1"
  by (subst Accept.simps) simp

lemma file_Read_count:
  assumes "file_Read r b w = Some ((h, n, None), w1)"
  shows "\<exists>d. d \<noteq> [] \<and> n = min (length b) (length d) \<and> h = take n d @ drop n b"
  using assms
  by (auto simp: file_Read_def Let_def split: sum.splits list.splits rd_event.splits if_splits)

text \<open>A read of fewer bytes than the token leaves a zero byte at the end of the buffer.\<close>

lemma short_read_differs:
  assumes "file_Read r make_hello w = Some ((h, n, None), w1)" and "n < length Hello"
  shows "h \<noteq> Hello"
proof -
  from file_Read_count [OF assms(1)] obtain d where
    h: "h = take n d @ drop n make_hello" and n: "n = min (length make_hello) (length d)"
    by blast
  have "drop n make_hello = replicate (length Hello - n) (CHR 0x00)"
    by (simp only: make_hello_def drop_replicate)
  moreover have "0 < length Hello - n" using assms(2) by simp
  ultimately have "last h = CHR 0x00" using h by simp
  moreover have "last Hello = CHR ''o''" by (simp add: Hello_def)
  ultimately show ?thesis by auto
qed

lemma match_read_full:
  assumes "file_Read r make_hello w = Some ((Hello, n, None), w1)"
  shows "n = length Hello"
proof -
  from file_Read_count [OF assms] have "n \<le> length Hello"
    by (auto simp: make_hello_def)
  moreover have "\<not> n < length Hello" using short_read_differs [OF assms] by blast
  ultimately show ?thesis by simp
qed

subsection \<open>Runs of the loop\<close>

lemma discard_reads_Accept:
  "discard_reads k sl w = Some w1 \<Longrightarrow> Accept sl w = Accept sl w1"
proof (induction k arbitrary: w)
  case 0
  then show ?case by simp
next
  case (Suc k)
  then show ?case
    by (auto split: option.splits prod.splits if_splits dest: Accept_retry_step)
qed

lemma Accept_Conn_run:
  "Accept sl w = Some (Inr fc, w') \<Longrightarrow>
   \<exists>k w1. discard_reads k sl w = Some w1 \<and>
          file_Read (sl_file sl) make_hello w1 = Some ((Hello, length Hello, None), w')"
proof (induction sl w rule: Accept.induct)
  case (1 sl w)
  from "1.prems" obtain h n err w1 where
    rd: "file_Read (sl_file sl) make_hello w = Some ((h, n, err), w1)"
    by (subst (asm) Accept.simps) (auto split: option.splits)
  from "1.prems" rd have err: "err = None"
    by (subst (asm) Accept.simps) (auto split: option.splits)
  show ?case
  proof (cases "h = Hello")
    case True
    with rd err "1.prems" have "w' = w1"
      by (subst (asm) Accept.simps) simp
    moreover from rd err True have "n = length Hello"
      using match_read_full by blast
    ultimately have "discard_reads 0 sl w = Some w \<and>
        file_Read (sl_file sl) make_hello w = Some ((Hello, length Hello, None), w')"
      using rd err True by simp
    then show ?thesis by blast
  next
    case False
    with rd err "1.prems" have "Accept sl w1 = Some (Inr fc, w')"
      by (subst (asm) Accept.simps) simp
    from "1.IH" [OF rd refl refl refl err False this] obtain k w2 where
      run: "discard_reads k sl w1 = Some w2"
      and last: "file_Read (sl_file sl) make_hello w2 = Some ((Hello, length Hello, None), w')"
      by blast
    from run have "discard_reads (Suc k) sl w = Some w2" using rd err False by simp
    with last show ?thesis by blast
  qed
qed

text \<open>Accept touches nothing but the bytes waiting on channels.\<close>

lemma Accept_unchanged:
  "Accept sl w = Some (res, w') \<Longrightarrow>
   heap w' = heap w \<and> fdtab w' = fdtab w \<and> npipes w' = npipes w \<and> srvdir w' = srvdir w"
proof (induction sl w rule: Accept.induct)
  case (1 sl w)
  from "1.prems" obtain h n err w1 where
    rd: "file_Read (sl_file sl) make_hello w = Some ((h, n, err), w1)"
    by (subst (asm) Accept.simps) (auto split: option.splits)
  then have w1: "heap w1 = heap w \<and> fdtab w1 = fdtab w \<and> npipes w1 = npipes w \<and>
      srvdir w1 = srvdir w"
    by (auto simp: file_Read_def set_incoming_def Let_def
        split: sum.splits list.splits rd_event.splits if_splits)
  show ?case
  proof (cases "err = None \<and> h \<noteq> Hello")
    case True
    with rd "1.prems" have "Accept sl w1 = Some (res, w')"
      by (subst (asm) Accept.simps) simp
    from "1.IH" [OF rd refl refl refl _ _ this] True w1 show ?thesis by simp
  next
    case False
    with rd "1.prems" have "w' = w1"
      by (subst (asm) Accept.simps) (auto split: option.splits if_splits)
    with w1 show ?thesis by simp
  qed
qed

lemma Accept_Conn_fields:
  "Accept sl w = Some (Inr fc, w') \<Longrightarrow> fc = \<lparr>fc_name = sl_name sl, fc_file = sl_file sl\<rparr>"
proof (induction sl w rule: Accept.induct)
  case (1 sl w)
  from "1.prems" obtain h n err w1 where
    rd: "file_Read (sl_file sl) make_hello w = Some ((h, n, err), w1)"
    by (subst (asm) Accept.simps) (auto split: option.splits)
  from "1.prems" rd have err: "err = None"
    by (subst (asm) Accept.simps) (auto split: option.splits)
  show ?case
  proof (cases "h = Hello")
    case True
    with rd err "1.prems" show ?thesis
      by (subst (asm) Accept.simps) simp
  next
    case False
    with rd err "1.prems" have "Accept sl w1 = Some (Inr fc, w')"
      by (subst (asm) Accept.simps) simp
    from "1.IH" [OF rd refl refl refl err False this] show ?thesis .
  qed
qed

text \<open>Reads, writes and Accept change nothing but the state of channels.\<close>

lemma file_Read_only_chio:
  "file_Read r b w = Some (res, w') \<Longrightarrow> w' = w\<lparr>chio := chio w'\<rparr>"
  by (auto simp: file_Read_def set_incoming_def Let_def
      split: sum.splits list.splits rd_event.splits if_splits)

lemma file_Write_only_chio:
  "file_Write r b w = (res, w') \<Longrightarrow> w' = w\<lparr>chio := chio w'\<rparr>"
  by (auto simp: file_Write_def Let_def split: sum.splits)

lemma Accept_only_chio:
  "Accept sl w = Some (res, w') \<Longrightarrow> w' = w\<lparr>chio := chio w'\<rparr>"
proof (induction sl w rule: Accept.induct)
  case (1 sl w)
  from "1.prems" obtain h n err w1 where
    rd: "file_Read (sl_file sl) make_hello w = Some ((h, n, err), w1)"
    by (subst (asm) Accept.simps) (auto split: option.splits)
  note w1 = file_Read_only_chio [OF rd]
  show ?case
  proof (cases "err = None \<and> h \<noteq> Hello")
    case True
    with rd "1.prems" have "Accept sl w1 = Some (res, w')"
      by (subst (asm) Accept.simps) simp
    from "1.IH" [OF rd refl refl refl _ _ this] True have "w' = w1\<lparr>chio := chio w'\<rparr>"
      by simp
    also have "\<dots> = w\<lparr>chio := chio w'\<rparr>"
      by (subst w1) simp
    finally show ?thesis .
  next
    case False
    with rd "1.prems" have "w' = w1"
      by (subst (asm) Accept.simps) (auto split: option.splits if_splits)
    with w1 show ?thesis by simp
  qed
qed

lemma file_chan_cong:
  "heap w' = heap w \<Longrightarrow> fdtab w' = fdtab w \<Longrightarrow> file_chan r w' = file_chan r w"
  by (auto simp: file_chan_def split: option.splits)

subsection \<open>Chunks shorter than the token\<close>

lemma file_chan_set_incoming [simp]: "file_chan r (set_incoming c evs w) = file_chan r w"
  by (simp add: file_chan_def set_incoming_def split: option.splits)

lemma incoming_set_incoming [simp]: "incoming (chio (set_incoming c evs w) c) = evs"
  by (simp add: set_incoming_def)

lemma set_incoming_twice [simp]:
  "set_incoming c evs (set_incoming c evs' w) = set_incoming c evs w"
  by (simp add: set_incoming_def)

lemma set_incoming_same: "incoming (chio w c) = evs \<Longrightarrow> set_incoming c evs w = w"
proof -
  assume "incoming (chio w c) = evs"
  then have "(chio w c)\<lparr>incoming := evs\<rparr> = chio w c" by auto
  then show ?thesis by (simp add: set_incoming_def)
qed

lemma file_Read_piece:
  assumes "file_chan r w = Inr c" and "incoming (chio w c) = RData p # rest"
    and "p \<noteq> []" and "length p < length b"
  shows "file_Read r b w = Some ((p @ drop (length p) b, length p, None), set_incoming c rest w)"
  using assms by (simp add: file_Read_def Let_def min_def)

lemma Accept_skips_pieces:
  assumes "file_chan (sl_file sl) w = Inr c"
    and "incoming (chio w c) = map RData ps @ rest"
    and "\<forall>p \<in> set ps. p \<noteq> [] \<and> length p < length Hello"
  shows "Accept sl w = Accept sl (set_incoming c rest w)"
  using assms
proof (induction ps arbitrary: w)
  case Nil
  then have "set_incoming c rest w = w"
    by (simp add: set_incoming_same)
  then show ?case by simp
next
  case (Cons p ps)
  let ?w1 = "set_incoming c (map RData ps @ rest) w"
  have p: "p \<noteq> []" "length p < length Hello" using Cons.prems(3) by auto
  then have rd: "file_Read (sl_file sl) make_hello w =
      Some ((p @ drop (length p) make_hello, length p, None), ?w1)"
    using Cons.prems(1,2) by (intro file_Read_piece) (simp_all add: make_hello_def)
  have "p @ drop (length p) make_hello \<noteq> Hello"
    using short_read_differs [OF rd p(2)] .
  with rd have "Accept sl w = Accept sl ?w1" by (rule Accept_retry_step)
  also have "\<dots> = Accept sl (set_incoming c rest ?w1)"
    using Cons.prems by (intro Cons.IH) simp_all
  finally show ?case by simp
qed

lemma piece_shorter:
  assumes "p \<in> set ps" and "[] \<notin> set ps" and "2 \<le> length ps"
  shows "length p < length (concat ps)"
proof -
  from assms(1) obtain ys zs where ps: "ps = ys @ p # zs"
    by (auto simp: in_set_conv_decomp)
  with assms(3) have "ys \<noteq> [] \<or> zs \<noteq> []" by (cases ys; cases zs) auto
  then obtain q where q: "q \<in> set ys \<union> set zs"
    by (cases ys; cases zs) auto
  with assms(2) ps have "q \<noteq> []" by auto
  from q have "length q \<le> length (concat ys) + length (concat zs)"
  proof
    assume "q \<in> set ys"
    then have "length q \<le> sum_list (map length ys)"
      by (intro member_le_sum_list) simp_all
    then show ?thesis by (simp add: length_concat)
  next
    assume "q \<in> set zs"
    then have "length q \<le> sum_list (map length zs)"
      by (intro member_le_sum_list) simp_all
    then show ?thesis by (simp add: length_concat)
  qed
  moreover have "0 < length q" using \<open>q \<noteq> []\<close> by simp
  moreover have "length (concat ps) = length (concat ys) + length p + length (concat zs)"
    by (simp add: ps)
  ultimately show ?thesis by linarith
qed

subsection \<open>createSrv and listen\<close>

lemma createSrv_Inr_iff:
  "(\<exists>file. fst (createSrv p w) = Inr file) \<longleftrightarrow>
   refuse w SysPipe = None \<and> refuse w SysCreate = None \<and> refuse w SysPost = None \<and>
   srvdir w p = None"
  by (auto simp: createSrv_defs split: option.splits)

lemma createSrv_file:
  assumes "fst (createSrv p w) = Inr file"
  shows "file = Suc (nextref w)"
    and "heap (snd (createSrv p w)) file = Some \<lparr>fname = p, sysfd = nextfd w, closed = False\<rparr>"
    and "fdtab (snd (createSrv p w)) (nextfd w) = Some (Pipe0 (npipes w))"
    and "npipes (snd (createSrv p w)) = Suc (npipes w)"
    and "rule (snd (createSrv p w)) = rule w"
    and "refuse (snd (createSrv p w)) = refuse w"
  using assms
  by (auto simp: createSrv_defs split: option.splits if_splits)

lemma createSrv_name:
  assumes "fst (createSrv p w) = Inr file"
  shows "srvdir (snd (createSrv p w)) p =
    (case rule w of
       ByCreator \<Rightarrow> None
     | ByServerEnd \<Rightarrow> Some \<lparr>posted = Some (Pipe1 (npipes w)), rclose = True\<rparr>)"
  using assms
  by (auto simp: createSrv_defs split: option.splits if_splits rclose_rule.splits)

lemma listen_Inr_iff:
  "(\<exists>sl. fst (listen p w) = Inr sl) \<longleftrightarrow>
   refuse w SysPipe = None \<and> refuse w SysCreate = None \<and> refuse w SysPost = None \<and>
   srvdir w p = None"
proof -
  have "(\<exists>sl. fst (listen p w) = Inr sl) \<longleftrightarrow> (\<exists>file. fst (createSrv p w) = Inr file)"
    by (auto simp: listen_def split: prod.splits sum.splits)
  then show ?thesis by (simp only: createSrv_Inr_iff)
qed

lemma listen_createSrv:
  assumes "fst (listen p w) = Inr sl"
  shows "fst (createSrv p w) = Inr (sl_file sl)" and "snd (listen p w) = snd (createSrv p w)"
    and "sl_name sl = p"
  using assms by (auto simp: listen_def split: prod.splits sum.splits)

subsection \<open>Closing a file\<close>

lemma file_Close_frame:
  "rule (snd (file_Close r w)) = rule w" "refuse (snd (file_Close r w)) = refuse w"
  "npipes (snd (file_Close r w)) = npipes w"
  by (auto simp: file_Close_def sys_close_def split: option.splits prod.splits)

lemma file_Close_removes:
  assumes "heap w r = Some f" "\<not> closed f" "fdtab w (sysfd f) = Some c"
  shows "srvdir (snd (file_Close r w)) nm =
     (case srvdir w nm of None \<Rightarrow> None
      | Some e \<Rightarrow> if removes (rule w) c nm e then None else Some e)"
  using assms by (simp add: file_Close_def sys_close_def after_close_def)

lemma file_Close_keeps_None:
  "srvdir w nm = None \<Longrightarrow> srvdir (snd (file_Close r w)) nm = None"
  by (auto simp: file_Close_def sys_close_def after_close_def split: option.splits prod.splits)

lemma file_Close_closed:
  assumes "heap w r = Some f"
  shows "file_chan r (snd (file_Close r w)) = Inl ErrClosed"
  using assms
  by (auto simp: file_Close_def file_chan_def sys_close_def split: option.splits prod.splits)

lemma file_Close_first:
  "file_chan r w = Inr c \<Longrightarrow> fst (file_Close r w) = None"
  by (auto simp: file_Close_def file_chan_def sys_close_def split: option.splits if_splits)

lemma file_Close_again:
  "file_chan r w = Inl ErrClosed \<Longrightarrow> file_Close r w = (Some ErrClosed, w)"
  by (auto simp: file_Close_def file_chan_def Ebadfd_def split: option.splits if_splits)

lemma closed_Read: "file_chan r w = Inl e \<Longrightarrow> file_Read r b w = Some ((b, 0, Some e), w)"
  by (simp add: file_Read_def)

lemma closed_Write: "file_chan r w = Inl e \<Longrightarrow> file_Write r b w = ((0, Some e), w)"
  by (simp add: file_Write_def)

lemma closed_io_errors:
  "file_chan (fc_file fc) w = Inl e \<Longrightarrow>
   io_errors fc cs w = Some (replicate (length cs) (Some e), w)"
proof (induction cs)
  case Nil
  then show ?case by simp
next
  case (Cons c cs)
  then show ?case
    by (cases c) (simp_all add: fc_Read_def fc_Write_def closed_Read closed_Write)
qed

subsection \<open>connect\<close>

lemma OpenFile_chan:
  assumes "os_OpenFile p m w = (Inr f, w1)"
  shows "\<exists>c. file_chan f w1 = Inr c"
  using assms
  by (auto simp: os_OpenFile_def sys_open_def os_NewFile_def file_chan_def
      split: option.splits prod.splits sum.splits)

lemma file_Write_wlog:
  assumes "file_chan f w = Inr c"
  shows "wlog (chio (snd (file_Write f b w)) c) = wlog (chio w c) @ [b]"
  using assms
  by (cases c) (auto simp: file_Write_def deliver_def Let_def)

lemma connect_world:
  assumes "os_OpenFile (path s) O_RDWR w = (Inr f, w1)"
  shows "snd (connect s w) = snd (file_Write f Hello w1)"
  using assms by (auto simp: connect_def split: prod.splits option.splits)

subsection \<open>The concrete world\<close>

lemma listen_world0: "fst (listen sock world0) = Inr sl0"
  by (simp add: kernel_defs world0_def sl0_def sock_def)

lemma listening_chan: "file_chan (sl_file sl0) listening = Inr (Pipe0 0)"
  by (simp add: listening_def kernel_defs world0_def sl0_def sock_def file_chan_def)

lemma listening_file: "file_chan (Suc 0) listening = Inr (Pipe0 0)"
  using listening_chan by (simp add: sl0_def)

lemma listening_heap: "heap listening (fc_file fc0) \<noteq> None"
  using listening_file by (auto simp: fc0_def file_chan_def split: option.splits)

lemma listening_chio: "listening\<lparr>chio := chio listening\<rparr> = listening"
  by simp

lemmas run_simps = file_Read_def listening_file Let_def make_hello_def Hello_def sl0_def

lemma open_fst: "fst (os_OpenFile sock O_RDWR (write_reports r)) = Inr 2"
  by (simp add: write_reports_def listening_def kernel_defs world0_def sock_def)

lemma open_chan:
  "file_chan 2 (snd (os_OpenFile sock O_RDWR (write_reports r))) = Inr (Pipe1 0)"
  by (simp add: write_reports_def listening_def kernel_defs world0_def sock_def file_chan_def)

lemma open_endpoint:
  "chio (snd (os_OpenFile sock O_RDWR (write_reports r))) (Pipe1 0) =
     \<lparr>incoming = [], wresults = [r], wlog = []\<rparr>"
  by (simp add: write_reports_def listening_def kernel_defs world0_def sock_def)

lemma open_pair:
  "os_OpenFile (path s0) O_RDWR (write_reports r) =
     (Inr 2, snd (os_OpenFile sock O_RDWR (write_reports r)))"
  using open_fst [of r] by (simp add: s0_def prod_eq_iff)

lemma write_fst:
  "fst (file_Write 2 Hello (snd (os_OpenFile sock O_RDWR (write_reports r)))) = r"
  by (simp add: file_Write_def open_chan open_endpoint Let_def)

text \<open>
  The model at work: in the listening world a client's connect opens the name and
  writes the token, and Accept on the listener then reads it and returns the Conn.
\<close>

lemma handshake_round:
  "fst (connect s0 listening) = Inr \<lparr>fc_name = sock, fc_file = 2\<rparr>
   \<and> map_option fst (Accept sl0 (snd (connect s0 listening))) = Some (Inr fc0)"
  by (simp add: Accept.simps connect_def file_Write_def file_Read_def file_chan_def deliver_def
      set_incoming_def make_hello_def Hello_def Let_def listening_def kernel_defs world0_def
      sock_def s0_def sl0_def fc0_def)

section \<open>The properties\<close>

text \<open>
  C1. Accept returns a Conn only after the exact 5-byte token has been observed in
  full: when Accept returns a Conn, its run was some number of reads that each
  returned a buffer other than the token, followed by one read that delivered all
  \<open>length Hello\<close> bytes of the token, and Accept stopped right after that read. Reads
  that do not match are discarded: after any number of them Accept behaves as if it
  had just been called, so none of them is surfaced as a connection.
\<close>

theorem Accept_only_after_token:
  "(Accept sl w = Some (Inr fc, w') \<longrightarrow>
      (\<exists>k w1. discard_reads k sl w = Some w1 \<and>
         file_Read (sl_file sl) make_hello w1 = Some ((Hello, length Hello, None), w')))
   \<and> (discard_reads k sl w = Some w1 \<longrightarrow> Accept sl w = Accept sl w1)"
  using Accept_Conn_run discard_reads_Accept by blast

text \<open>Two bytes of noise, then the token: the noise is read and dropped, the token accepted.\<close>

theorem Accept_only_after_token_witness:
  "Accept sl0 (set_incoming (Pipe0 0) [RData ''Hi'', RData ''Hello''] listening) =
     Some (Inr fc0, set_incoming (Pipe0 0) [] listening)
   \<and> (\<exists>k w1. discard_reads k sl0
                (set_incoming (Pipe0 0) [RData ''Hi'', RData ''Hello''] listening) = Some w1 \<and>
         file_Read (sl_file sl0) make_hello w1 =
           Some ((Hello, length Hello, None), set_incoming (Pipe0 0) [] listening))
   \<and> discard_reads 1 sl0 (set_incoming (Pipe0 0) [RData ''Hi'', RData ''Hello''] listening) =
       Some (set_incoming (Pipe0 0) [RData ''Hello''] listening)
   \<and> Accept sl0 (set_incoming (Pipe0 0) [RData ''Hi'', RData ''Hello''] listening) =
       Accept sl0 (set_incoming (Pipe0 0) [RData ''Hello''] listening)"
proof -
  let ?w = "set_incoming (Pipe0 0) [RData ''Hi'', RData ''Hello''] listening"
  have a: "Accept sl0 ?w = Some (Inr fc0, set_incoming (Pipe0 0) [] listening)"
    by (simp add: Accept.simps run_simps fc0_def)
  have d: "discard_reads 1 sl0 ?w = Some (set_incoming (Pipe0 0) [RData ''Hello''] listening)"
    by (simp add: run_simps)
  note inst = Accept_only_after_token [of sl0 ?w fc0 "set_incoming (Pipe0 0) [] listening" 1
      "set_incoming (Pipe0 0) [RData ''Hello''] listening"]
  note r = inst [THEN conjunct1, THEN mp, OF a]
  note e = inst [THEN conjunct2, THEN mp, OF d]
  from a r d e show ?thesis by (intro conjI)
qed

text \<open>
  C2, as amended. After the path is opened read-write, connect writes the token in
  one call of Write and never calls Write again: the log of the channel grows by
  exactly one entry, the token. If that write reports an error, connect fails with
  that error; if it reports no error and a count other than the length of the token,
  connect fails with the "Bad handshake" error. Either way no Conn is returned, and
  the world connect leaves is the one that single write left.
\<close>

theorem connect_writes_once:
  assumes "os_OpenFile (path s) O_RDWR w = (Inr f, w1)"
  shows "(\<exists>c. file_chan f w1 = Inr c \<and>
            wlog (chio (snd (connect s w)) c) = wlog (chio w1 c) @ [Hello])
     \<and> (fst (file_Write f Hello w1) = (n, Some e) \<longrightarrow>
          connect s w = (Inl e, snd (file_Write f Hello w1)))
     \<and> (fst (file_Write f Hello w1) = (m, None) \<and> m \<noteq> length Hello \<longrightarrow>
          connect s w = (Inl (ErrorString ''Bad handshake''), snd (file_Write f Hello w1)))"
proof (intro conjI impI)
  from OpenFile_chan [OF assms] obtain c where c: "file_chan f w1 = Inr c" by blast
  then have "wlog (chio (snd (file_Write f Hello w1)) c) = wlog (chio w1 c) @ [Hello]"
    by (rule file_Write_wlog)
  with c show "\<exists>c. file_chan f w1 = Inr c \<and>
      wlog (chio (snd (connect s w)) c) = wlog (chio w1 c) @ [Hello]"
    by (simp add: connect_world [OF assms])
next
  assume "fst (file_Write f Hello w1) = (n, Some e)"
  then show "connect s w = (Inl e, snd (file_Write f Hello w1))"
    using assms by (auto simp: connect_def split: prod.splits)
next
  assume "fst (file_Write f Hello w1) = (m, None) \<and> m \<noteq> length Hello"
  then show "connect s w = (Inl (ErrorString ''Bad handshake''), snd (file_Write f Hello w1))"
    using assms by (auto simp: connect_def split: prod.splits)
qed

text \<open>
  A write that reports 3 bytes and no error gives "Bad handshake", after one write;
  a write that reports an error gives that error.
\<close>

theorem connect_writes_once_witness:
  "fst (file_Write 2 Hello (snd (os_OpenFile sock O_RDWR (write_reports (3, None))))) = (3, None)
   \<and> (3 :: nat) \<noteq> length Hello
   \<and> fst (connect s0 (write_reports (3, None))) = Inl (ErrorString ''Bad handshake'')
   \<and> wlog (chio (snd (connect s0 (write_reports (3, None)))) (Pipe1 0)) = [Hello]
   \<and> fst (file_Write 2 Hello (snd (os_OpenFile sock O_RDWR
          (write_reports (0, Some (Errstr ''i/o error'')))))) = (0, Some (Errstr ''i/o error''))
   \<and> fst (connect s0 (write_reports (0, Some (Errstr ''i/o error'')))) =
       Inl (Errstr ''i/o error'')"
proof -
  let ?a = "write_reports (3, None)"
  let ?b = "write_reports (0, Some (Errstr ''i/o error''))"
  let ?wa = "snd (os_OpenFile sock O_RDWR ?a)"
  let ?wb = "snd (os_OpenFile sock O_RDWR ?b)"
  note ta = connect_writes_once [OF open_pair [of "(3, None)"], of 0 EOF 3]
  note tb = connect_writes_once [OF open_pair [of "(0, Some (Errstr ''i/o error''))"],
      of 0 "Errstr ''i/o error''" 0]
  have 4: "(3 :: nat) \<noteq> length Hello" by (simp add: Hello_def)
  have "fst (file_Write 2 Hello ?wa) = (3, None) \<and> 3 \<noteq> length Hello"
    using write_fst [of "(3, None)"] 4 by (intro conjI)
  with ta have "connect s0 ?a = (Inl (ErrorString ''Bad handshake''), snd (file_Write 2 Hello ?wa))"
    by blast
  then have 1: "fst (connect s0 ?a) = Inl (ErrorString ''Bad handshake'')"
    by (simp only: fst_conv)
  from ta obtain c where c: "file_chan 2 ?wa = Inr c"
    and l: "wlog (chio (snd (connect s0 ?a)) c) = wlog (chio ?wa c) @ [Hello]"
    by blast
  from c have "c = Pipe1 0" by (simp add: open_chan)
  with l have 2: "wlog (chio (snd (connect s0 ?a)) (Pipe1 0)) = [Hello]"
    by (simp add: open_endpoint)
  from tb write_fst [of "(0, Some (Errstr ''i/o error''))"]
  have "connect s0 ?b = (Inl (Errstr ''i/o error''), snd (file_Write 2 Hello ?wb))"
    by blast
  then have 3: "fst (connect s0 ?b) = Inl (Errstr ''i/o error'')"
    by (simp only: fst_conv)
  from write_fst [of "(3, None)"] 4 1 2 write_fst [of "(0, Some (Errstr ''i/o error''))"] 3
  show ?thesis by (intro conjI)
qed

text \<open>
  C2 as it was stated fails where Write reports a short count together with an
  error, which is how \<^verbatim>\<open>os.File.Write\<close> reports every short count
  (\<^verbatim>\<open>io.ErrShortWrite\<close>, the error "short write"): the write reports 3 of the 5
  bytes, and connect fails with the error of the write, not with "Bad handshake".
\<close>

theorem connect_short_write_error:
  "fst (file_Write 2 Hello (snd (os_OpenFile sock O_RDWR
          (write_reports (3, Some (ErrorString ''short write'')))))) =
     (3, Some (ErrorString ''short write''))
   \<and> (3 :: nat) < length Hello
   \<and> fst (connect s0 (write_reports (3, Some (ErrorString ''short write'')))) =
       Inl (ErrorString ''short write'')
   \<and> fst (connect s0 (write_reports (3, Some (ErrorString ''short write'')))) \<noteq>
       Inl (ErrorString ''Bad handshake'')"
proof -
  let ?r = "(3 :: nat, Some (ErrorString ''short write''))"
  let ?w1 = "snd (os_OpenFile sock O_RDWR (write_reports ?r))"
  obtain w2 where "file_Write 2 Hello ?w1 = (?r, w2)"
    using write_fst [of ?r] by (metis prod.collapse)
  then have "fst (connect s0 (write_reports ?r)) = Inl (ErrorString ''short write'')"
    by (simp add: connect_def open_pair)
  then show ?thesis
    using write_fst [of ?r] by (simp add: Hello_def)
qed

text \<open>
  C3. SetDeadline, SetReadDeadline and SetWriteDeadline each return the
  unsupported-operation error \<open>EPLAN9\<close>, for every Conn and every time, and leave the
  world as it was.
\<close>

theorem deadlines_unsupported:
  "SetDeadline fc t w = (Some EPLAN9, w) \<and>
   SetReadDeadline fc t w = (Some EPLAN9, w) \<and>
   SetWriteDeadline fc t w = (Some EPLAN9, w)"
  by (simp add: SetDeadline_def SetReadDeadline_def SetWriteDeadline_def)

text \<open>
  C4. After a listener that \<^verbatim>\<open>listen\<close> created on a path is closed, the name at that
  path is gone from \<^verbatim>\<open>/srv\<close> and \<^verbatim>\<open>listen\<close> on the same path succeeds again,
  whatever has passed over the channels in between (\<open>io\<close>: reads, writes and Accept
  change nothing else). The name goes by the remove-on-close flag alone: the backend
  calls nothing that unlinks a name, and the kernel removes only entries created with
  the flag. Under the rule \<open>ByServerEnd\<close> the name stands, flagged, from \<^verbatim>\<open>listen\<close>
  until the Close of the listener; under \<open>ByCreator\<close> the deferred \<^verbatim>\<open>srv.Close()\<close> of
  \<^verbatim>\<open>createSrv\<close> has removed it already.
\<close>

theorem Close_releases_name:
  assumes "fst (listen p w) = Inr sl"
  shows "srvdir (snd (sl_Close sl ((snd (listen p w))\<lparr>chio := io\<rparr>))) p = None
     \<and> (\<exists>sl'. fst (listen p (snd (sl_Close sl ((snd (listen p w))\<lparr>chio := io\<rparr>)))) = Inr sl')
     \<and> (rule w = ByServerEnd \<longrightarrow>
          srvdir (snd (listen p w)) p = Some \<lparr>posted = Some (Pipe1 (npipes w)), rclose = True\<rparr>)"
proof -
  let ?w1 = "(snd (listen p w))\<lparr>chio := io\<rparr>"
  let ?w2 = "snd (sl_Close sl ?w1)"
  note cs = listen_createSrv [OF assms]
  note f = createSrv_file [OF cs(1)]
  have ok: "refuse w SysPipe = None \<and> refuse w SysCreate = None \<and> refuse w SysPost = None"
    using assms listen_Inr_iff [of p w] by blast
  have live: "rule w = ByServerEnd \<longrightarrow>
      srvdir (snd (listen p w)) p = Some \<lparr>posted = Some (Pipe1 (npipes w)), rclose = True\<rparr>"
    using createSrv_name [OF cs(1)] cs(2) by simp
  have gone: "srvdir ?w2 p = None"
  proof (cases "rule w")
    case ByCreator
    then have "srvdir ?w1 p = None"
      using createSrv_name [OF cs(1)] cs(2) by simp
    then show ?thesis
      unfolding sl_Close_def by (rule file_Close_keeps_None)
  next
    case ByServerEnd
    with live have e: "srvdir ?w1 p = Some \<lparr>posted = Some (Pipe1 (npipes w)), rclose = True\<rparr>"
      by simp
    let ?f = "\<lparr>fname = p, sysfd = nextfd w, closed = False\<rparr>"
    have h: "heap ?w1 (sl_file sl) = Some ?f"
      using f(2) cs(2) by simp
    have o: "\<not> closed ?f" by simp
    have d: "fdtab ?w1 (sysfd ?f) = Some (Pipe0 (npipes w))"
      using f(3) cs(2) by simp
    have "srvdir ?w2 p =
       (case srvdir ?w1 p of None \<Rightarrow> None
        | Some e \<Rightarrow> if removes (rule ?w1) (Pipe0 (npipes w)) p e then None else Some e)"
      unfolding sl_Close_def by (rule file_Close_removes [OF h o d])
    with e ByServerEnd f(5) cs(2) show ?thesis by simp
  qed
  have "refuse ?w2 = refuse w"
    using f(6) cs(2) by (simp add: sl_Close_def file_Close_frame)
  with ok gone have "\<exists>sl'. fst (listen p ?w2) = Inr sl'"
    by (simp add: listen_Inr_iff)
  with gone live show ?thesis by (intro conjI)
qed

theorem Close_releases_name_witness:
  "fst (listen sock world0) = Inr sl0
   \<and> rule world0 = ByServerEnd
   \<and> srvdir listening sock = Some \<lparr>posted = Some (Pipe1 (npipes world0)), rclose = True\<rparr>
   \<and> srvdir (snd (sl_Close sl0 listening)) sock = None
   \<and> (\<exists>sl'. fst (listen sock (snd (sl_Close sl0 listening))) = Inr sl')"
proof -
  have r: "rule world0 = ByServerEnd" by (simp add: world0_def)
  note inst = Close_releases_name [OF listen_world0, of "chio listening",
      folded listening_def, unfolded listening_chio]
  note gone = inst [THEN conjunct1]
  note again = inst [THEN conjunct2, THEN conjunct1]
  note live = inst [THEN conjunct2, THEN conjunct2, THEN mp, OF r]
  from listen_world0 r live gone again show ?thesis by (intro conjI)
qed

text \<open>
  C5. \<^verbatim>\<open>listen\<close> creates one pipe, and the file of the listener it returns is end 0 of
  that pipe. Accept creates nothing: the Conn it returns holds the listener's own
  file object and name, and the pipes, the descriptors and the file objects of the
  world are what they were before the call.
\<close>

theorem one_channel_reused:
  "(fst (listen p w) = Inr sl \<longrightarrow>
      npipes (snd (listen p w)) = Suc (npipes w) \<and>
      file_chan (sl_file sl) (snd (listen p w)) = Inr (Pipe0 (npipes w)))
   \<and> (Accept sl' w' = Some (Inr fc, w'') \<longrightarrow>
      fc_file fc = sl_file sl' \<and> fc_name fc = sl_name sl' \<and>
      npipes w'' = npipes w' \<and> heap w'' = heap w' \<and> fdtab w'' = fdtab w' \<and>
      file_chan (fc_file fc) w'' = file_chan (sl_file sl') w')"
proof (intro conjI impI)
  assume l: "fst (listen p w) = Inr sl"
  note cs = listen_createSrv [OF l]
  note f = createSrv_file [OF cs(1)]
  show "npipes (snd (listen p w)) = Suc (npipes w)"
    using f(4) cs(2) by simp
  show "file_chan (sl_file sl) (snd (listen p w)) = Inr (Pipe0 (npipes w))"
    using f(2,3) cs(2) by (simp add: file_chan_def)
next
  assume a: "Accept sl' w' = Some (Inr fc, w'')"
  note u = Accept_unchanged [OF a]
  note c = Accept_Conn_fields [OF a]
  show "fc_file fc = sl_file sl'" "fc_name fc = sl_name sl'" using c by simp_all
  show "npipes w'' = npipes w'" "heap w'' = heap w'" "fdtab w'' = fdtab w'" using u by simp_all
  show "file_chan (fc_file fc) w'' = file_chan (sl_file sl') w'"
    using u c file_chan_cong [of w'' w' "sl_file sl'"] by simp
qed

theorem one_channel_reused_witness:
  "fst (listen sock world0) = Inr sl0
   \<and> npipes (snd (listen sock world0)) = Suc (npipes world0)
   \<and> file_chan (sl_file sl0) (snd (listen sock world0)) = Inr (Pipe0 (npipes world0))
   \<and> Accept sl0 (set_incoming (Pipe0 0) [RData ''Hello''] listening) =
       Some (Inr fc0, set_incoming (Pipe0 0) [] listening)
   \<and> fc_file fc0 = sl_file sl0
   \<and> npipes (set_incoming (Pipe0 0) [] listening) =
       npipes (set_incoming (Pipe0 0) [RData ''Hello''] listening)
   \<and> file_chan (fc_file fc0) (set_incoming (Pipe0 0) [] listening) = Inr (Pipe0 0)"
proof -
  have a: "Accept sl0 (set_incoming (Pipe0 0) [RData ''Hello''] listening) =
      Some (Inr fc0, set_incoming (Pipe0 0) [] listening)"
    by (simp add: Accept.simps run_simps fc0_def)
  note inst = one_channel_reused [of sock world0 sl0 sl0
      "set_incoming (Pipe0 0) [RData ''Hello''] listening" fc0
      "set_incoming (Pipe0 0) [] listening"]
  note l = inst [THEN conjunct1, THEN mp, OF listen_world0]
  note r = inst [THEN conjunct2, THEN mp, OF a]
  have 5: "file_chan (fc_file fc0) (set_incoming (Pipe0 0) [] listening) = Inr (Pipe0 0)"
    using r listening_chan by (simp only: file_chan_set_incoming)
  from listen_world0 l a r 5 show ?thesis by (intro conjI) (elim conjE; assumption)+
qed

text \<open>
  C6. After Close on a Conn whose file is a file object, every Read and every Write
  on that Conn fails with the \<open>ErrClosed\<close> error, transfers no byte and changes
  nothing; so does every one of any sequence of reads and writes that follows.
\<close>

theorem io_after_Close_fails:
  assumes "heap w (fc_file fc) \<noteq> None"
  shows "fc_Read fc b (snd (fc_Close fc w)) = Some ((b, 0, Some ErrClosed), snd (fc_Close fc w))
     \<and> fc_Write fc b (snd (fc_Close fc w)) = ((0, Some ErrClosed), snd (fc_Close fc w))
     \<and> io_errors fc cs (snd (fc_Close fc w)) =
         Some (replicate (length cs) (Some ErrClosed), snd (fc_Close fc w))"
proof -
  from assms obtain f where "heap w (fc_file fc) = Some f" by blast
  then have "file_chan (fc_file fc) (snd (fc_Close fc w)) = Inl ErrClosed"
    unfolding fc_Close_def by (rule file_Close_closed)
  then show ?thesis
    by (simp add: fc_Read_def fc_Write_def closed_Read closed_Write closed_io_errors)
qed

theorem io_after_Close_fails_witness:
  "heap listening (fc_file fc0) \<noteq> None
   \<and> fst (fc_Close fc0 listening) = None
   \<and> fc_Read fc0 ''0000'' (snd (fc_Close fc0 listening)) =
       Some ((''0000'', 0, Some ErrClosed), snd (fc_Close fc0 listening))
   \<and> fc_Write fc0 ''PING'' (snd (fc_Close fc0 listening)) =
       ((0, Some ErrClosed), snd (fc_Close fc0 listening))
   \<and> io_errors fc0 [DoRead ''0000'', DoWrite ''PING''] (snd (fc_Close fc0 listening)) =
       Some ([Some ErrClosed, Some ErrClosed], snd (fc_Close fc0 listening))"
proof -
  have c: "fst (fc_Close fc0 listening) = None"
    unfolding fc_Close_def using listening_file by (simp add: file_Close_first fc0_def)
  from io_after_Close_fails [OF listening_heap, of "''0000''" "[DoRead ''0000'', DoWrite ''PING'']"]
    io_after_Close_fails [OF listening_heap, of "''PING''" "[]"] listening_heap c
  show ?thesis by (simp del: io_errors.simps)
qed

text \<open>
  C7. An error returned by a read on the listener's file, at whatever iteration of the
  loop, is returned by Accept at once: Accept returns that error and no Conn, and the
  world is the one the failed read left, so no further read was made.
\<close>

theorem Accept_returns_read_error:
  "discard_reads k sl w = Some w1 \<Longrightarrow>
   file_Read (sl_file sl) make_hello w1 = Some ((h, n, Some e), w2) \<Longrightarrow>
   Accept sl w = Some (Inl e, w2)"
  using discard_reads_Accept Accept_error_step by simp

text \<open>Noise, then a failed read, then the token: Accept returns the failure and leaves
  the token unread.\<close>

theorem Accept_returns_read_error_witness:
  "discard_reads 1 sl0
     (set_incoming (Pipe0 0)
        [RData ''junk'', RFail (Errstr ''i/o error''), RData ''Hello''] listening) =
     Some (set_incoming (Pipe0 0) [RFail (Errstr ''i/o error''), RData ''Hello''] listening)
   \<and> file_Read (sl_file sl0) make_hello
       (set_incoming (Pipe0 0) [RFail (Errstr ''i/o error''), RData ''Hello''] listening) =
     Some ((make_hello, 0, Some (Errstr ''i/o error'')),
           set_incoming (Pipe0 0) [RData ''Hello''] listening)
   \<and> Accept sl0
       (set_incoming (Pipe0 0)
          [RData ''junk'', RFail (Errstr ''i/o error''), RData ''Hello''] listening) =
     Some (Inl (Errstr ''i/o error''), set_incoming (Pipe0 0) [RData ''Hello''] listening)"
proof -
  let ?w = "set_incoming (Pipe0 0)
      [RData ''junk'', RFail (Errstr ''i/o error''), RData ''Hello''] listening"
  let ?w1 = "set_incoming (Pipe0 0) [RFail (Errstr ''i/o error''), RData ''Hello''] listening"
  let ?w2 = "set_incoming (Pipe0 0) [RData ''Hello''] listening"
  have d: "discard_reads 1 sl0 ?w = Some ?w1"
    by (simp add: run_simps)
  have r: "file_Read (sl_file sl0) make_hello ?w1 =
      Some ((make_hello, 0, Some (Errstr ''i/o error'')), ?w2)"
    by (simp add: run_simps)
  from d r Accept_returns_read_error [OF d r] show ?thesis by (intro conjI)
qed

text \<open>
  C8, as amended. Close on a listener whose file is open succeeds. A second Close
  changes nothing further, and it fails with the \<open>ErrClosed\<close> error.
\<close>

theorem second_Close_fails:
  assumes "file_chan (sl_file sl) w = Inr c"
  shows "fst (sl_Close sl w) = None
     \<and> sl_Close sl (snd (sl_Close sl w)) = (Some ErrClosed, snd (sl_Close sl w))"
proof -
  from assms obtain f where "heap w (sl_file sl) = Some f"
    by (auto simp: file_chan_def split: option.splits)
  then have "file_chan (sl_file sl) (snd (sl_Close sl w)) = Inl ErrClosed"
    unfolding sl_Close_def by (rule file_Close_closed)
  then have "sl_Close sl (snd (sl_Close sl w)) = (Some ErrClosed, snd (sl_Close sl w))"
    unfolding sl_Close_def by (rule file_Close_again)
  moreover have "fst (sl_Close sl w) = None"
    unfolding sl_Close_def using assms by (rule file_Close_first)
  ultimately show ?thesis by simp
qed

theorem second_Close_fails_witness:
  "file_chan (sl_file sl0) listening = Inr (Pipe0 0)
   \<and> fst (sl_Close sl0 listening) = None
   \<and> sl_Close sl0 (snd (sl_Close sl0 listening)) = (Some ErrClosed, snd (sl_Close sl0 listening))"
  using second_Close_fails [OF listening_chan] listening_chan by simp

text \<open>
  C8 as it was stated fails on the listener \<open>sl0\<close>: the first Close returns no error,
  the second returns \<open>ErrClosed\<close>.
\<close>

theorem second_Close_differs:
  "fst (sl_Close sl0 listening) = None \<and>
   fst (sl_Close sl0 (snd (sl_Close sl0 listening))) = Some ErrClosed \<and>
   fst (sl_Close sl0 (snd (sl_Close sl0 listening))) \<noteq> fst (sl_Close sl0 listening)"
proof -
  have 1: "fst (sl_Close sl0 listening) = None"
    unfolding sl_Close_def using listening_chan by (rule file_Close_first)
  have "heap listening (sl_file sl0) \<noteq> None"
    using listening_chan by (auto simp: file_chan_def split: option.splits)
  then obtain f where "heap listening (sl_file sl0) = Some f" by blast
  then have "file_chan (sl_file sl0) (snd (sl_Close sl0 listening)) = Inl ErrClosed"
    unfolding sl_Close_def by (rule file_Close_closed)
  then have "sl_Close sl0 (snd (sl_Close sl0 listening)) =
      (Some ErrClosed, snd (sl_Close sl0 listening))"
    unfolding sl_Close_def by (rule file_Close_again)
  with 1 show ?thesis by simp
qed

text \<open>
  C9. The loop does no reassembly. A read that delivers fewer bytes than the token
  never matches, and Accept goes on as if called afresh after it. So when the token
  arrives split into two or more non-empty chunks, Accept reads every chunk, matches
  none, and goes on with whatever follows them; with nothing following, it does not
  return.
\<close>

theorem Accept_no_reassembly:
  "(file_Read (sl_file sl) make_hello w = Some ((h, n, None), w1) \<and> n < length Hello \<longrightarrow>
      h \<noteq> Hello \<and> Accept sl w = Accept sl w1)
   \<and> (file_chan (sl_file sl) w = Inr c \<and> incoming (chio w c) = map RData ps @ rest \<and>
       concat ps = Hello \<and> [] \<notin> set ps \<and> 2 \<le> length ps \<longrightarrow>
      Accept sl w = Accept sl (set_incoming c rest w))"
proof (intro conjI impI; (elim conjE)?)
  assume rd: "file_Read (sl_file sl) make_hello w = Some ((h, n, None), w1)"
    and n: "n < length Hello"
  from short_read_differs [OF rd n] show "h \<noteq> Hello" .
  with rd show "Accept sl w = Accept sl w1" by (rule Accept_retry_step)
next
  assume c: "file_chan (sl_file sl) w = Inr c"
    and inc: "incoming (chio w c) = map RData ps @ rest"
    and ps: "concat ps = Hello" "[] \<notin> set ps" "2 \<le> length ps"
  have "\<forall>p \<in> set ps. p \<noteq> [] \<and> length p < length Hello"
    using piece_shorter [OF _ ps(2,3)] ps(1,2) by auto
  with c inc show "Accept sl w = Accept sl (set_incoming c rest w)"
    by (rule Accept_skips_pieces)
qed

text \<open>The token in two chunks, of 3 and 2 bytes, and nothing after them.\<close>

theorem Accept_no_reassembly_witness:
  "file_Read (sl_file sl0) make_hello
     (set_incoming (Pipe0 0) [RData ''Hel'', RData ''lo''] listening) =
     Some ((''Hel'' @ [CHR 0x00, CHR 0x00], 3, None),
           set_incoming (Pipe0 0) [RData ''lo''] listening)
   \<and> (3 :: nat) < length Hello
   \<and> ''Hel'' @ [CHR 0x00, CHR 0x00] \<noteq> Hello
   \<and> concat [''Hel'', ''lo''] = Hello
   \<and> Accept sl0 (set_incoming (Pipe0 0) [RData ''Hel'', RData ''lo''] listening) =
       Accept sl0 (set_incoming (Pipe0 0) [RData ''lo''] listening)
   \<and> Accept sl0 (set_incoming (Pipe0 0) [RData ''Hel'', RData ''lo''] listening) =
       Accept sl0 (set_incoming (Pipe0 0) [] listening)
   \<and> Accept sl0 (set_incoming (Pipe0 0) [] listening) = None"
proof -
  let ?w = "set_incoming (Pipe0 0) [RData ''Hel'', RData ''lo''] listening"
  have r: "file_Read (sl_file sl0) make_hello ?w =
      Some ((''Hel'' @ [CHR 0x00, CHR 0x00], 3, None),
            set_incoming (Pipe0 0) [RData ''lo''] listening)"
    by (simp add: run_simps)
  have c: "file_chan (sl_file sl0) ?w = Inr (Pipe0 0)"
    by (simp add: listening_chan)
  have i: "incoming (chio ?w (Pipe0 0)) = map RData [''Hel'', ''lo''] @ []"
    by simp
  have b: "Accept sl0 (set_incoming (Pipe0 0) [] listening) = None"
    by (simp add: Accept.simps run_simps)
  note inst = Accept_no_reassembly [of sl0 ?w "''Hel'' @ [CHR 0x00, CHR 0x00]" 3
      "set_incoming (Pipe0 0) [RData ''lo''] listening" "Pipe0 0" "[''Hel'', ''lo'']" "[]"]
  have e1: "Accept sl0 ?w = Accept sl0 (set_incoming (Pipe0 0) [RData ''lo''] listening)"
    using inst r by (simp add: Hello_def)
  have e2: "Accept sl0 ?w = Accept sl0 (set_incoming (Pipe0 0) [] listening)"
    using inst c i by (simp add: Hello_def)
  show ?thesis
    by (intro conjI) (simp_all only: r e1 [symmetric] e2 [symmetric] b, simp_all add: Hello_def e2 b)
qed

end
